theory Spec2Isabelle
  imports Main "HOL-Library.Word" "HOL-Library.Signed_Division"
begin

section \<open>Data model\<close>

text \<open>
  A \<open>*websocket.Conn\<close> is an opaque handle of the gorilla library; a byte slice is a
  list of characters.
\<close>

type_synonym conn = nat
type_synonym bytes = string

text \<open>
  event.go: \<open>type Event struct { Type string; Payload json.RawMessage }\<close>. The payload is
  kept as the raw bytes of the message. \<open>SendMessageEvent\<close> is the payload structure of
  a \<open>send_message\<close> event.
\<close>

record Event =
  Type :: string
  Payload :: bytes

record SendMessageEvent =
  Message :: string
  From :: string

definition EventSendMessage :: string where
  "EventSendMessage = ''send_message''"

text \<open>
  Go's \<open>error\<close> values: the package variable \<open>ErrEventNotSupported\<close> and any other
  error, carried with its text. A nil error is \<open>None\<close>.
\<close>

datatype error = ErrEventNotSupported | Err string

text \<open>
  client.go: \<open>type Client struct { connection; manager; egress }\<close>. The program holds
  clients by pointer and keys the registry by that pointer: \<open>addr\<close> is the address of
  the struct, \<open>connection\<close> its connection field, which is never reassigned. There is
  one Manager, so the back-reference is not stored; the egress channel is the input
  of the write loop below.
\<close>

record Client =
  addr :: nat
  connection :: conn

definition NewClient :: "conn \<Rightarrow> nat \<Rightarrow> Client" where
  "NewClient c a = \<lparr>addr = a, connection = c\<rparr>"

text \<open>
  Calls into the libraries (net/http, gorilla/websocket, log, fmt, encoding/json, time)
  and goroutine starts are recorded in the order the code makes them.
\<close>

datatype effect =
    ConnClose conn
  | WriteHeader nat
  | HttpError nat
  | WriteBody bytes
  | Upgrade
  | GoReadMessages Client
  | GoWriteMessages Client
  | PrintString string
  | PrintEvent Event
  | Log string
  | LogErr string error
  | SetReadLimit conn nat
  | SetReadDeadline conn
  | SetPongHandler conn
  | JsonUnmarshal bytes
  | JsonMarshal Event
  | WriteMessage conn nat bytes
  | NewTicker "64 word"
  | TickerStop

text \<open>\<open>type EventHandler func(event Event, c *Client) error\<close>, with the calls it makes.\<close>

type_synonym EventHandler = "Event \<Rightarrow> Client \<Rightarrow> effect list \<times> error option"

text \<open>
  Modelled from the spec: the Token \<open>{key: opaque string, createdAt: timestamp}\<close> and the
  Token Store, a mapping from key to Token. Their file (otp.go) is not among the
  sources; times are in nanoseconds.
\<close>

record OTP =
  Key :: string
  Created :: int

type_synonym RetentionMap = "string \<rightharpoonup> OTP"

text \<open>
  \<open>type Manager struct { clients ClientList; sync.RWMutex; handlers; otps }\<close>, together
  with the record of calls made so far. \<open>ClientList\<close> is \<open>map[*Client]bool\<close>.
\<close>

record Manager =
  clients :: "Client \<rightharpoonup> bool"
  handlers :: "string \<rightharpoonup> EventHandler"
  otps :: RetentionMap
  trace :: "effect list"

definition emit :: "effect \<Rightarrow> Manager \<Rightarrow> Manager" where
  "emit e m = m\<lparr>trace := trace m @ [e]\<rparr>"

section \<open>Requests and the origin check\<close>

text \<open>
  Query parameters and headers in their order of appearance; \<open>Get\<close> gives the first
  value of a key and the empty string when there is none.
\<close>

record Request =
  query :: "(string \<times> string) list"
  header :: "(string \<times> string) list"

definition Get :: "(string \<times> string) list \<Rightarrow> string \<Rightarrow> string" where
  "Get kvs k = (case map_of kvs k of None \<Rightarrow> [] | Some v \<Rightarrow> v)"

text \<open>The manager of the token-authenticated snapshot (first file of part_000).\<close>

definition checkOrigin :: "Request \<Rightarrow> bool" where
  "checkOrigin r =
     (let origin = Get (header r) ''Origin'' in
      if origin = ''http://localhost:8080'' then True else True)"

text \<open>The manager of the earlier snapshot (second file of part_000) refuses other origins.\<close>

definition checkOrigin_v1 :: "Request \<Rightarrow> bool" where
  "checkOrigin_v1 r =
     (let origin = Get (header r) ''Origin'' in
      if origin = ''http://localhost:8080'' then True else False)"

record Upgrader =
  ReadBufferSize :: nat
  WriteBufferSize :: nat
  CheckOrigin :: "Request \<Rightarrow> bool"

definition websocketUpgrader :: Upgrader where
  "websocketUpgrader = \<lparr>ReadBufferSize = 1024, WriteBufferSize = 1024, CheckOrigin = checkOrigin\<rparr>"

section \<open>Durations\<close>

text \<open>
  \<open>time.Duration\<close> is an int64 count of nanoseconds: \<open>*\<close> wraps around, and \<open>/\<close>
  on a non-zero divisor truncates towards zero (the quotient of the signed values,
  wrapped to 64 bits).
\<close>

type_synonym Duration = "64 word"

definition quo :: "Duration \<Rightarrow> Duration \<Rightarrow> Duration" where
  "quo a b = word_of_int (sint a sdiv sint b)"

definition Second :: Duration where
  "Second = 1000000000"

definition pongWait :: Duration where
  "pongWait = 10 * Second"

definition pingInterval :: Duration where
  "pingInterval = quo (pongWait * 9) 10"

section \<open>The registry\<close>

definition addClient :: "Client \<Rightarrow> Manager \<Rightarrow> Manager" where
  "addClient client m = m\<lparr>clients := (clients m)(client \<mapsto> True)\<rparr>"

definition removeClient :: "Client \<Rightarrow> Manager \<Rightarrow> Manager" where
  "removeClient client m =
     (case clients m client of
        Some _ \<Rightarrow> (emit (ConnClose (connection client)) m)\<lparr>clients := (clients m)(client := None)\<rparr>
      | None \<Rightarrow> m)"

section \<open>The token store\<close>

text \<open>
  Modelled from the spec: \<open>NewRetentionMap\<close>, called by \<open>NewManager\<close>, is missing from
  the sources. The store starts empty; its background sweep is \<open>Retention\<close> below.
\<close>

definition NewRetentionMap :: "Duration \<Rightarrow> RetentionMap" where
  "NewRetentionMap retentionPeriod = Map.empty"

text \<open>
  Modelled from the spec: \<open>NewOTP\<close> is missing from the sources. "issue() -> Token:
  generates a fresh unique key, records creation time, inserts into the map, returns the
  Token." The generated key and the clock are inputs.
\<close>

definition NewOTP :: "string \<Rightarrow> int \<Rightarrow> RetentionMap \<Rightarrow> OTP \<times> RetentionMap" where
  "NewOTP k now rm = (let otp = \<lparr>Key = k, Created = now\<rparr> in (otp, rm(k \<mapsto> otp)))"

text \<open>
  Modelled from the spec: \<open>VerifyOTP\<close> is missing from the sources. "verify(key) -> bool:
  looks up key; if present, deletes it (single-use) and returns true; if absent or never
  issued, returns false."
\<close>

definition VerifyOTP :: "string \<Rightarrow> RetentionMap \<Rightarrow> bool \<times> RetentionMap" where
  "VerifyOTP otp rm =
     (case rm otp of
        None \<Rightarrow> (False, rm)
      | Some _ \<Rightarrow> (True, rm(otp := None)))"

text \<open>
  Modelled from the spec: the sweep is missing from the sources. "Background sweep:
  removes all entries whose age exceeds the retention window."
\<close>

definition Retention :: "int \<Rightarrow> int \<Rightarrow> RetentionMap \<Rightarrow> RetentionMap" where
  "Retention now retentionPeriod rm =
     (\<lambda>k. case rm k of
             None \<Rightarrow> None
           | Some otp \<Rightarrow> if now - Created otp > retentionPeriod then None else Some otp)"

text \<open>A history of the store: issues, verifications and sweeps, oldest first.\<close>

datatype store_op = Issue string int | Verify string | Sweep int

fun store_step :: "int \<Rightarrow> store_op \<Rightarrow> RetentionMap \<Rightarrow> RetentionMap" where
  "store_step p (Issue k t) rm = snd (NewOTP k t rm)"
| "store_step p (Verify k) rm = snd (VerifyOTP k rm)"
| "store_step p (Sweep t) rm = Retention t p rm"

fun store_run :: "int \<Rightarrow> store_op list \<Rightarrow> RetentionMap \<Rightarrow> RetentionMap" where
  "store_run p [] rm = rm"
| "store_run p (x # xs) rm = store_run p xs (store_step p x rm)"

section \<open>The manager\<close>

definition StatusOK :: nat where "StatusOK = 200"
definition StatusBadRequest :: nat where "StatusBadRequest = 400"
definition StatusUnauthorized :: nat where "StatusUnauthorized = 401"

definition TextMessage :: nat where "TextMessage = 1"
definition CloseMessage :: nat where "CloseMessage = 8"
definition PingMessage :: nat where "PingMessage = 9"

text \<open>
  \<open>setupEventHandlers\<close> installs one handler, for \<open>send_message\<close>: it prints the event
  and returns nil.
\<close>

definition setupEventHandlers :: "Manager \<Rightarrow> Manager" where
  "setupEventHandlers m =
     m\<lparr>handlers := (handlers m)(EventSendMessage \<mapsto> (\<lambda>e c. ([PrintEvent e], None)))\<rparr>"

definition NewManager :: Manager where
  "NewManager =
     setupEventHandlers
       \<lparr>clients = Map.empty, handlers = Map.empty,
        otps = NewRetentionMap (20 * Second), trace = []\<rparr>"

definition reouteEvent :: "Event \<Rightarrow> Client \<Rightarrow> Manager \<Rightarrow> error option \<times> Manager" where
  "reouteEvent event c m =
     (case handlers m (Type event) of
        Some handler \<Rightarrow>
          (case handler event c of
             (effs, err) \<Rightarrow>
               (case err of
                  Some e \<Rightarrow> (Some e, m\<lparr>trace := trace m @ effs\<rparr>)
                | None \<Rightarrow> (None, m\<lparr>trace := trace m @ effs\<rparr>)))
      | None \<Rightarrow> (Some ErrEventNotSupported, m))"

text \<open>
  \<open>serveWS\<close>: \<open>up\<close> is what \<open>websocketUpgrader.Upgrade\<close> returns for the request and
  \<open>a\<close> the address \<open>NewClient\<close> allocates. The first component of the result is the
  client whose two goroutines were started, if any.
\<close>

definition serveWS ::
  "(error + conn) \<Rightarrow> nat \<Rightarrow> Request \<Rightarrow> Manager \<Rightarrow> Client option \<times> Manager" where
  "serveWS up a r m =
     (let otp = Get (query r) ''otp'';
          m1 = emit (PrintString otp) m
      in if otp = [] then (None, emit (WriteHeader StatusUnauthorized) m1)
         else case VerifyOTP otp (otps m1) of
           (ok, rm) \<Rightarrow>
             (let m2 = m1\<lparr>otps := rm\<rparr>
              in if \<not> ok then (None, emit (WriteHeader StatusUnauthorized) m2)
                 else (let m3 = emit Upgrade (emit (Log ''New connections'') m2)
                       in case up of
                            Inl err \<Rightarrow> (None, emit (LogErr [] err) m3)
                          | Inr cn \<Rightarrow>
                              (let client = NewClient cn a;
                                   m4 = addClient client m3
                               in (Some client,
                                   emit (GoWriteMessages client)
                                     (emit (GoReadMessages client) m4))))))"

text \<open>
  \<open>loginHandler\<close>: \<open>body\<close> is the decoded request body (or the decoding error), \<open>k\<close>
  and \<open>now\<close> the key and the time of the token issued, \<open>mar\<close> the JSON encoder of the
  response.
\<close>

definition loginHandler ::
  "(error + string \<times> string) \<Rightarrow> string \<Rightarrow> int \<Rightarrow> (string \<Rightarrow> error + bytes) \<Rightarrow> Manager \<Rightarrow> Manager" where
  "loginHandler body k now mar m =
     (case body of
        Inl err \<Rightarrow> emit (HttpError StatusBadRequest) m
      | Inr (username, password) \<Rightarrow>
          if username = ''arti'' \<and> password = ''123'' then
            (case NewOTP k now (otps m) of
               (otp, rm) \<Rightarrow>
                 (let m1 = m\<lparr>otps := rm\<rparr>
                  in case mar (Key otp) of
                       Inl err \<Rightarrow> emit (LogErr [] err) m1
                     | Inr data \<Rightarrow> emit (WriteBody data) (emit (WriteHeader StatusOK) m1)))
          else emit (WriteHeader StatusUnauthorized) m)"

section \<open>The read loop\<close>

text \<open>
  What \<open>ReadMessage\<close> returns: an error, with the answer of
  \<open>websocket.IsUnexpectedCloseError(err, CloseGoingAway, CloseAbnormalClosure)\<close> for it,
  or the bytes of a message. A loop that has used up the results so far is blocked in
  its next read; otherwise it has left the loop.
\<close>

datatype ReadResult = ReadError error bool | ReadOK bytes

datatype outcome = Blocked | Exited

text \<open>The \<open>for\<close> loop of \<open>readMessages\<close>; \<open>um\<close> is \<open>json.Unmarshal\<close> into an Event.\<close>

fun readLoop ::
  "(bytes \<Rightarrow> error + Event) \<Rightarrow> Client \<Rightarrow> ReadResult list \<Rightarrow> Manager \<Rightarrow> outcome \<times> Manager" where
  "readLoop um c [] m = (Blocked, m)"
| "readLoop um c (ReadError err unexpected # rest) m =
     (Exited, if unexpected then emit (LogErr ''error reading a message'' err) m else m)"
| "readLoop um c (ReadOK payload # rest) m =
     (case um payload of
        Inl err \<Rightarrow>
          (Exited, emit (LogErr ''error marshaling message'' err) (emit (JsonUnmarshal payload) m))
      | Inr request \<Rightarrow>
          (case reouteEvent request c (emit (JsonUnmarshal payload) m) of
             (Some err, m2) \<Rightarrow> readLoop um c rest (emit (LogErr ''Error handling Message'' err) m2)
           | (None, m2) \<Rightarrow> readLoop um c rest m2))"

text \<open>
  \<open>readMessages\<close>: \<open>deadline\<close> is what the first \<open>SetReadDeadline\<close> returns. The
  deferred \<open>removeClient\<close> runs on every return.
\<close>

definition readMessages ::
  "(bytes \<Rightarrow> error + Event) \<Rightarrow> Client \<Rightarrow> error option \<Rightarrow> ReadResult list \<Rightarrow> Manager
     \<Rightarrow> outcome \<times> Manager" where
  "readMessages um c deadline reads m =
     (let m1 = emit (SetReadDeadline (connection c)) (emit (SetReadLimit (connection c) 1024) m)
      in case deadline of
           Some err \<Rightarrow> (Exited, removeClient c (emit (LogErr [] err) m1))
         | None \<Rightarrow>
             (case readLoop um c reads (emit (SetPongHandler (connection c)) m1) of
                (Exited, m2) \<Rightarrow> (Exited, removeClient c m2)
              | (Blocked, m2) \<Rightarrow> (Blocked, m2)))"

text \<open>
  The read results on which the loop breaks: a read error, and a message that
  \<open>json.Unmarshal\<close> rejects.
\<close>

fun fatal_read :: "(bytes \<Rightarrow> error + Event) \<Rightarrow> ReadResult \<Rightarrow> bool" where
  "fatal_read um (ReadError err unexpected) = True"
| "fatal_read um (ReadOK payload) = (case um payload of Inl err \<Rightarrow> True | Inr request \<Rightarrow> False)"

section \<open>The write loop\<close>

text \<open>
  What one \<open>select\<close> of \<open>WriteMessages\<close> receives: an event from the egress channel, the
  closing of that channel, or a tick; each with what the \<open>WriteMessage\<close> call of that
  branch returns.
\<close>

datatype SelectResult =
    EgressRecv Event "error option"
  | EgressClosed "error option"
  | TickerFire "error option"

text \<open>The \<open>for\<close> loop of \<open>WriteMessages\<close>; \<open>mar\<close> is \<open>json.Marshal\<close> of an Event.\<close>

fun writeLoop ::
  "(Event \<Rightarrow> error + bytes) \<Rightarrow> Client \<Rightarrow> SelectResult list \<Rightarrow> Manager \<Rightarrow> outcome \<times> Manager" where
  "writeLoop mar c [] m = (Blocked, m)"
| "writeLoop mar c (EgressClosed werr # rest) m =
     (case werr of
        Some err \<Rightarrow>
          (Exited, emit (LogErr ''connection closed: '' err)
                     (emit (WriteMessage (connection c) CloseMessage []) m))
      | None \<Rightarrow> (Exited, emit (WriteMessage (connection c) CloseMessage []) m))"
| "writeLoop mar c (EgressRecv message werr # rest) m =
     (case mar message of
        Inl err \<Rightarrow> (Exited, emit (LogErr [] err) (emit (JsonMarshal message) m))
      | Inr data \<Rightarrow>
          (case werr of
             Some err \<Rightarrow>
               writeLoop mar c rest
                 (emit (Log ''sent message'')
                    (emit (LogErr [] err)
                       (emit (WriteMessage (connection c) TextMessage data)
                          (emit (JsonMarshal message) m))))
           | None \<Rightarrow>
               writeLoop mar c rest
                 (emit (Log ''sent message'')
                    (emit (WriteMessage (connection c) TextMessage data)
                       (emit (JsonMarshal message) m)))))"
| "writeLoop mar c (TickerFire werr # rest) m =
     (case werr of
        Some err \<Rightarrow>
          (Exited, emit (LogErr ''writemsg: '' err)
                     (emit (WriteMessage (connection c) PingMessage []) (emit (Log ''ping'') m)))
      | None \<Rightarrow>
          writeLoop mar c rest
            (emit (WriteMessage (connection c) PingMessage []) (emit (Log ''ping'') m)))"

text \<open>
  The \<open>select\<close> results on which the loop returns: an event that \<open>json.Marshal\<close>
  rejects, the closing of the egress channel, and a tick whose ping cannot be written.
\<close>

fun fatal_select :: "(Event \<Rightarrow> error + bytes) \<Rightarrow> SelectResult \<Rightarrow> bool" where
  "fatal_select mar (EgressRecv message werr) =
     (case mar message of Inl err \<Rightarrow> True | Inr data \<Rightarrow> False)"
| "fatal_select mar (EgressClosed werr) = True"
| "fatal_select mar (TickerFire werr) = (werr \<noteq> None)"

text \<open>\<open>WriteMessages\<close>: the deferred function stops the ticker and calls \<open>removeClient\<close>.\<close>

definition WriteMessages ::
  "(Event \<Rightarrow> error + bytes) \<Rightarrow> Client \<Rightarrow> SelectResult list \<Rightarrow> Manager \<Rightarrow> outcome \<times> Manager" where
  "WriteMessages mar c sel m =
     (case writeLoop mar c sel (emit (NewTicker pingInterval) m) of
        (Exited, m1) \<Rightarrow> (Exited, removeClient c (emit TickerStop m1))
      | (Blocked, m1) \<Rightarrow> (Blocked, m1))"

section \<open>The server\<close>

text \<open>
  The server as a transition system: the manager, the addresses \<open>NewClient\<close> has handed
  out, and the clients whose read and write goroutines have been started and have not
  returned. A request to \<open>/login\<close> or \<open>/ws\<close> is one step, a sweep of the token store is
  one step, and a goroutine that returns is one step: its loop reaches the registry only
  in the deferred \<open>removeClient\<close>, which runs under the manager's lock.
\<close>

record Server =
  mgr :: Manager
  allocated :: "nat set"
  readers :: "Client set"
  writers :: "Client set"

definition init :: Server where
  "init = \<lparr>mgr = NewManager, allocated = {}, readers = {}, writers = {}\<rparr>"

inductive step :: "Server \<Rightarrow> Server \<Rightarrow> bool" where
  login:
    "step s (s\<lparr>mgr := loginHandler body k now mar (mgr s)\<rparr>)"
| sweep:
    "step s (s\<lparr>mgr := (mgr s)\<lparr>otps := Retention now p (otps (mgr s))\<rparr>\<rparr>)"
| serve:
    "a \<notin> allocated s \<Longrightarrow> serveWS up a r (mgr s) = (started, m') \<Longrightarrow>
     step s (s\<lparr>mgr := m', allocated := insert a (allocated s),
               readers := readers s \<union> set_option started,
               writers := writers s \<union> set_option started\<rparr>)"
| read_return:
    "c \<in> readers s \<Longrightarrow> readMessages um c deadline reads (mgr s) = (Exited, m') \<Longrightarrow>
     step s (s\<lparr>mgr := m', readers := readers s - {c}\<rparr>)"
| write_return:
    "c \<in> writers s \<Longrightarrow> WriteMessages marE c sel (mgr s) = (Exited, m') \<Longrightarrow>
     step s (s\<lparr>mgr := m', writers := writers s - {c}\<rparr>)"

definition reachable :: "Server \<Rightarrow> bool" where
  "reachable s = step\<^sup>*\<^sup>* init s"

text \<open>
  A client is active when it has been admitted (its two goroutines were started) and
  neither goroutine has returned, that is, no cleanup has run for it.
\<close>

definition active :: "Server \<Rightarrow> Client \<Rightarrow> bool" where
  "active s c = (c \<in> readers s \<and> c \<in> writers s)"

definition registered :: "Server \<Rightarrow> Client \<Rightarrow> bool" where
  "registered s c = (clients (mgr s) c \<noteq> None)"

text \<open>
  What the steps of the server keep true: a running goroutine belongs to a client whose
  address was allocated, the registry holds exactly the active clients, and the handler
  table is the one \<open>NewManager\<close> built.
\<close>

definition server_inv :: "Server \<Rightarrow> bool" where
  "server_inv s = ((\<forall>c \<in> readers s \<union> writers s. addr c \<in> allocated s) \<and>
           (\<forall>c. registered s c = active s c) \<and>
           handlers (mgr s) = handlers NewManager)"

section \<open>Example values\<close>

definition ex_client :: Client where
  "ex_client = \<lparr>addr = 3, connection = 7\<rparr>"

definition ex_event :: Event where
  "ex_event = \<lparr>Type = ''send_message'', Payload = ''{\"message\":\"hi\",\"from\":\"a\"}''\<rparr>"

text \<open>A request to \<open>/ws\<close> with a token, and stand-ins for the JSON codec on a few inputs.\<close>

definition ex_request :: "string \<Rightarrow> Request" where
  "ex_request k = \<lparr>query = [(''otp'', k)], header = []\<rparr>"

definition ex_unmarshal :: "bytes \<Rightarrow> error + Event" where
  "ex_unmarshal p =
     (if p = ''{\"type\":\"send_message\",\"payload\":{\"message\":\"hi\",\"from\":\"a\"}}''
      then Inr ex_event
      else if p = ''{\"type\":\"typing\"}'' then Inr \<lparr>Type = ''typing'', Payload = []\<rparr>
      else Inl (Err ''invalid character''))"

definition ex_marshal :: "Event \<Rightarrow> error + bytes" where
  "ex_marshal e = Inr (''{\"type\":\"'' @ Type e @ ''\",\"payload\":'' @ Payload e @ ''}'')"

text \<open>
  A run of the server: a login issues the token \<open>k1\<close>, a request with that token is
  admitted, and the read goroutine of the admitted client returns on a read error.
\<close>

definition ex_login :: Server where
  "ex_login = init\<lparr>mgr := loginHandler (Inr (''arti'', ''123'')) ''k1'' 0 (\<lambda>k. Inr k) (mgr init)\<rparr>"

definition ex_admitted :: Server where
  "ex_admitted =
     ex_login\<lparr>mgr := snd (serveWS (Inr 7) 3 (ex_request ''k1'') (mgr ex_login)),
              allocated := insert 3 (allocated ex_login),
              readers := readers ex_login \<union> set_option (fst (serveWS (Inr 7) 3 (ex_request ''k1'') (mgr ex_login))),
              writers := writers ex_login \<union> set_option (fst (serveWS (Inr 7) 3 (ex_request ''k1'') (mgr ex_login)))\<rparr>"

definition ex_closed :: Server where
  "ex_closed =
     ex_admitted\<lparr>mgr := snd (readMessages ex_unmarshal ex_client None [ReadError (Err ''EOF'') False]
                              (mgr ex_admitted)),
                 readers := readers ex_admitted - {ex_client}\<rparr>"

section \<open>Properties\<close>

lemma trace_emit: "trace (emit e m) = trace m @ [e]"
  by (simp add: emit_def)

lemma clients_emit: "clients (emit e m) = clients m"
  by (simp add: emit_def)

lemma removeClient_absent: "clients m c = None \<Longrightarrow> removeClient c m = m"
  by (simp add: removeClient_def)

lemma clients_removeClient: "clients (removeClient c m) = (clients m)(c := None)"
  by (auto simp: removeClient_def emit_def split: option.splits)

lemma reouteEvent_fields:
  "clients (snd (reouteEvent e c m)) = clients m"
  "handlers (snd (reouteEvent e c m)) = handlers m"
  "otps (snd (reouteEvent e c m)) = otps m"
  by (simp_all add: reouteEvent_def split: option.splits prod.splits)

lemma emit_fields:
  "handlers (emit e m) = handlers m" "otps (emit e m) = otps m"
  by (simp_all add: emit_def)

lemma readLoop_fields:
  "clients (snd (readLoop um c rs m)) = clients m \<and>
   handlers (snd (readLoop um c rs m)) = handlers m \<and>
   otps (snd (readLoop um c rs m)) = otps m"
proof (induction rs arbitrary: m)
  case Nil
  then show ?case by simp
next
  case (Cons x rest)
  show ?case
  proof (cases x)
    case (ReadError err unexpected)
    then show ?thesis by (simp add: clients_emit emit_fields)
  next
    case (ReadOK payload)
    show ?thesis
    proof (cases "um payload")
      case (Inl err)
      with ReadOK show ?thesis by (simp add: clients_emit emit_fields)
    next
      case (Inr request)
      obtain r m2 where re: "reouteEvent request c (emit (JsonUnmarshal payload) m) = (r, m2)"
        by (cases "reouteEvent request c (emit (JsonUnmarshal payload) m)")
      have f: "clients m2 = clients m" "handlers m2 = handlers m" "otps m2 = otps m"
        using reouteEvent_fields [of request c "emit (JsonUnmarshal payload) m"] re
        by (simp_all add: clients_emit emit_fields)
      show ?thesis
      proof (cases r)
        case None
        with Cons.IH [of m2] ReadOK Inr re f show ?thesis by simp
      next
        case (Some e)
        with Cons.IH [of "emit (LogErr ''Error handling Message'' e) m2"] ReadOK Inr re f
        show ?thesis by (simp add: clients_emit emit_fields)
      qed
    qed
  qed
qed

lemma writeLoop_fields:
  "clients (snd (writeLoop mar c sel m)) = clients m \<and>
   handlers (snd (writeLoop mar c sel m)) = handlers m \<and>
   otps (snd (writeLoop mar c sel m)) = otps m"
proof (induction sel arbitrary: m)
  case Nil
  then show ?case by simp
next
  case (Cons x rest)
  show ?case
  proof (cases x)
    case (EgressRecv message werr)
    then show ?thesis
      using Cons.IH by (simp add: clients_emit emit_fields split: sum.splits option.splits)
  next
    case (EgressClosed werr)
    then show ?thesis by (simp add: clients_emit emit_fields split: option.splits)
  next
    case (TickerFire werr)
    then show ?thesis
      using Cons.IH by (simp add: clients_emit emit_fields split: option.splits)
  qed
qed

lemma removeClient_fields:
  "handlers (removeClient c m) = handlers m" "otps (removeClient c m) = otps m"
  by (simp_all add: removeClient_def emit_def split: option.splits)

lemma readMessages_Exited:
  assumes "readMessages um c deadline reads m = (Exited, m')"
  shows "clients m' = (clients m)(c := None)" "handlers m' = handlers m"
proof -
  let ?m1 = "emit (SetReadDeadline (connection c)) (emit (SetReadLimit (connection c) 1024) m)"
  show "clients m' = (clients m)(c := None)"
  proof (cases deadline)
    case (Some err)
    with assms show ?thesis
      by (auto simp: readMessages_def clients_removeClient clients_emit)
  next
    case None
    obtain st m2 where rl: "readLoop um c reads (emit (SetPongHandler (connection c)) ?m1) = (st, m2)"
      by (cases "readLoop um c reads (emit (SetPongHandler (connection c)) ?m1)")
    have "clients m2 = clients m"
      using readLoop_fields [of um c reads "emit (SetPongHandler (connection c)) ?m1"] rl
      by (simp add: clients_emit)
    with assms None rl show ?thesis
      by (cases st) (auto simp: readMessages_def clients_removeClient)
  qed
  show "handlers m' = handlers m"
  proof (cases deadline)
    case (Some err)
    with assms show ?thesis
      by (auto simp: readMessages_def removeClient_fields emit_fields)
  next
    case None
    obtain st m2 where rl: "readLoop um c reads (emit (SetPongHandler (connection c)) ?m1) = (st, m2)"
      by (cases "readLoop um c reads (emit (SetPongHandler (connection c)) ?m1)")
    have "handlers m2 = handlers m"
      using readLoop_fields [of um c reads "emit (SetPongHandler (connection c)) ?m1"] rl
      by (simp add: emit_fields)
    with assms None rl show ?thesis
      by (cases st) (auto simp: readMessages_def removeClient_fields)
  qed
qed

lemma WriteMessages_Exited:
  assumes "WriteMessages mar c sel m = (Exited, m')"
  shows "clients m' = (clients m)(c := None)" "handlers m' = handlers m"
proof -
  obtain st m1 where wl: "writeLoop mar c sel (emit (NewTicker pingInterval) m) = (st, m1)"
    by (cases "writeLoop mar c sel (emit (NewTicker pingInterval) m)")
  have f: "clients m1 = clients m" "handlers m1 = handlers m"
    using writeLoop_fields [of mar c sel "emit (NewTicker pingInterval) m"] wl
    by (simp_all add: clients_emit emit_fields)
  from assms wl f show "clients m' = (clients m)(c := None)"
    by (cases st) (auto simp: WriteMessages_def clients_removeClient clients_emit)
  from assms wl f show "handlers m' = handlers m"
    by (cases st) (auto simp: WriteMessages_def removeClient_fields emit_fields)
qed

lemma loginHandler_fields:
  "clients (loginHandler body k now mar m) = clients m"
  "handlers (loginHandler body k now mar m) = handlers m"
  by (auto simp: loginHandler_def clients_emit emit_fields NewOTP_def Let_def
           split: sum.splits prod.splits)

lemma serveWS_cases:
  assumes "serveWS up a r m = (started, m')"
  shows "handlers m' = handlers m \<and>
         ((started = None \<and> clients m' = clients m) \<or>
          (\<exists>cn. up = Inr cn \<and> started = Some (NewClient cn a) \<and>
                clients m' = (clients m)(NewClient cn a \<mapsto> True)))"
  using assms
  by (auto simp: serveWS_def Let_def clients_emit emit_fields addClient_def
           split: if_splits prod.splits sum.splits)


lemma server_inv_init: "server_inv init"
  by (simp add: server_inv_def init_def registered_def active_def NewManager_def setupEventHandlers_def)

lemma server_inv_step:
  assumes st: "step s s'" and I: "server_inv s"
  shows "server_inv s'"
  using st
proof (cases rule: step.cases)
  case (login body k now mar)
  with I show ?thesis
    by (simp add: server_inv_def registered_def active_def loginHandler_fields)
next
  case (sweep now p)
  with I show ?thesis
    by (simp add: server_inv_def registered_def active_def)
next
  case (serve a up r started m')
  from serveWS_cases [OF serve(3)]
  have h: "handlers m' = handlers (mgr s)"
    and d: "(started = None \<and> clients m' = clients (mgr s)) \<or>
            (\<exists>cn. up = Inr cn \<and> started = Some (NewClient cn a) \<and>
                  clients m' = (clients (mgr s))(NewClient cn a \<mapsto> True))"
    by simp_all
  from d show ?thesis
  proof
    assume "started = None \<and> clients m' = clients (mgr s)"
    with I serve h show ?thesis
      by (auto simp: server_inv_def registered_def active_def)
  next
    assume "\<exists>cn. up = Inr cn \<and> started = Some (NewClient cn a) \<and>
                  clients m' = (clients (mgr s))(NewClient cn a \<mapsto> True)"
    then obtain cn where s1: "started = Some (NewClient cn a)"
      and c1: "clients m' = (clients (mgr s))(NewClient cn a \<mapsto> True)" by blast
    have fresh: "NewClient cn a \<notin> readers s \<union> writers s"
    proof
      assume "NewClient cn a \<in> readers s \<union> writers s"
      with I have "addr (NewClient cn a) \<in> allocated s"
        unfolding server_inv_def by blast
      with serve(2) show False by (simp add: NewClient_def)
    qed
    have ad: "addr (NewClient cn a) = a" by (simp add: NewClient_def)
    from fresh ad I serve(1) h s1 c1 show ?thesis
      by (auto simp: server_inv_def registered_def active_def)
  qed
next
  case (read_return c um deadline reads m')
  from readMessages_Exited [OF read_return(3)] I read_return(1,2) show ?thesis
    by (auto simp: server_inv_def registered_def active_def)
next
  case (write_return c marE sel m')
  from WriteMessages_Exited [OF write_return(3)] I write_return(1,2) show ?thesis
    by (auto simp: server_inv_def registered_def active_def)
qed

lemma server_inv_reachable: "reachable s \<Longrightarrow> server_inv s"
  unfolding reachable_def
  by (induction rule: rtranclp_induct) (auto intro: server_inv_init server_inv_step)

lemma store_run_keeps:
  "(\<forall>x \<in> set ops. x \<noteq> Verify k \<and> (\<forall>t. x \<noteq> Sweep t)) \<Longrightarrow> rm k \<noteq> None \<Longrightarrow>
   store_run p ops rm k \<noteq> None"
proof (induction ops arbitrary: rm)
  case Nil
  then show ?case by simp
next
  case (Cons x xs)
  have "store_step p x rm k \<noteq> None"
    using Cons.prems by (cases x) (auto simp: NewOTP_def VerifyOTP_def Let_def split: option.splits)
  with Cons show ?case by simp
qed

lemma store_run_never_issued:
  "(\<forall>t. Issue k t \<notin> set ops) \<Longrightarrow> rm k = None \<Longrightarrow> store_run p ops rm k = None"
proof (induction ops arbitrary: rm)
  case Nil
  then show ?case by simp
next
  case (Cons x xs)
  have "store_step p x rm k = None"
    using Cons.prems
    by (cases x) (auto simp: NewOTP_def VerifyOTP_def Retention_def Let_def split: option.splits)
  with Cons show ?case by simp
qed

lemma store_run_append: "store_run p (xs @ ys) rm = store_run p ys (store_run p xs rm)"
  by (induction xs arbitrary: rm) simp_all

lemma readLoop_Exited_iff:
  "(fst (readLoop um c rs m) = Exited) = (\<exists>r \<in> set rs. fatal_read um r)"
proof (induction rs arbitrary: m)
  case Nil
  then show ?case by simp
next
  case (Cons x rest)
  show ?case
  proof (cases x)
    case (ReadError err unexpected)
    then show ?thesis by simp
  next
    case (ReadOK payload)
    show ?thesis
    proof (cases "um payload")
      case (Inl err)
      with ReadOK show ?thesis by simp
    next
      case (Inr request)
      obtain r m2 where re: "reouteEvent request c (emit (JsonUnmarshal payload) m) = (r, m2)"
        by (cases "reouteEvent request c (emit (JsonUnmarshal payload) m)")
      show ?thesis
      proof (cases r)
        case None
        with Cons.IH [of m2] ReadOK Inr re show ?thesis by simp
      next
        case (Some e)
        with Cons.IH [of "emit (LogErr ''Error handling Message'' e) m2"] ReadOK Inr re
        show ?thesis by simp
      qed
    qed
  qed
qed

lemma writeLoop_Exited_iff:
  "(fst (writeLoop mar c sel m) = Exited) = (\<exists>x \<in> set sel. fatal_select mar x)"
proof (induction sel arbitrary: m)
  case Nil
  then show ?case by simp
next
  case (Cons x rest)
  show ?case
  proof (cases x)
    case (EgressRecv message werr)
    then show ?thesis
      using Cons.IH by (simp split: sum.splits option.splits)
  next
    case (EgressClosed werr)
    then show ?thesis by (simp split: option.splits)
  next
    case (TickerFire werr)
    then show ?thesis
      using Cons.IH by (simp split: option.splits)
  qed
qed

lemma ex_login_mgr:
  "mgr ex_login = NewManager\<lparr>otps := [''k1'' \<mapsto> \<lparr>Key = ''k1'', Created = 0\<rparr>],
                             trace := [WriteHeader 200, WriteBody ''k1'']\<rparr>"
  by (simp add: ex_login_def init_def loginHandler_def NewOTP_def Let_def emit_def
                NewManager_def setupEventHandlers_def NewRetentionMap_def StatusOK_def)

lemma ex_serve:
  "serveWS (Inr 7) 3 (ex_request ''k1'') (mgr ex_login) =
     (Some ex_client,
      NewManager\<lparr>clients := [ex_client \<mapsto> True], otps := Map.empty,
                 trace := [WriteHeader 200, WriteBody ''k1'', PrintString ''k1'',
                           Log ''New connections'', Upgrade,
                           GoReadMessages ex_client, GoWriteMessages ex_client]\<rparr>)"
  by (simp add: ex_login_mgr serveWS_def ex_request_def Get_def VerifyOTP_def Let_def emit_def
                addClient_def NewClient_def ex_client_def NewManager_def setupEventHandlers_def
                NewRetentionMap_def)

lemma ex_reachable: "reachable ex_login" "reachable ex_admitted" "reachable ex_closed"
proof -
  have s1: "step init ex_login"
    unfolding ex_login_def by (rule step.login)
  have s2: "step ex_login ex_admitted"
    unfolding ex_admitted_def
    by (rule step.serve) (simp_all add: ex_login_def init_def)
  have rd: "ex_client \<in> readers ex_admitted"
    by (simp add: ex_admitted_def ex_serve)
  have ex: "fst (readMessages ex_unmarshal ex_client None [ReadError (Err ''EOF'') False]
                              (mgr ex_admitted)) = Exited"
    by (simp add: readMessages_def)
  have s3: "step ex_admitted ex_closed"
    unfolding ex_closed_def
    by (rule step.read_return [OF rd, of ex_unmarshal None "[ReadError (Err ''EOF'') False]"])
       (simp add: ex [symmetric])
  show "reachable ex_login" "reachable ex_admitted" "reachable ex_closed"
    using s1 s2 s3 unfolding reachable_def by auto
qed

lemma ex_admitted_mgr:
  "mgr ex_admitted =
     NewManager\<lparr>clients := [ex_client \<mapsto> True], otps := Map.empty,
                 trace := [WriteHeader 200, WriteBody ''k1'', PrintString ''k1'',
                           Log ''New connections'', Upgrade,
                           GoReadMessages ex_client, GoWriteMessages ex_client]\<rparr>"
  by (simp add: ex_admitted_def ex_serve)

section \<open>Claims\<close>

text \<open>
  C1: calling \<open>removeClient\<close> twice on the same client leaves the registry without it
  and closes its connection once. The second call changes nothing; when the client is
  registered, the first call closes the connection and deletes the client, so the two
  calls together add exactly one close; when it is not, neither call does anything.
\<close>

theorem removeClient_twice_closes_once:
  "removeClient c (removeClient c m) = removeClient c m
   \<and> clients (removeClient c (removeClient c m)) c = None
   \<and> (clients m c \<noteq> None \<longrightarrow>
        trace (removeClient c m) = trace m @ [ConnClose (connection c)]
        \<and> clients (removeClient c m) = (clients m)(c := None)
        \<and> trace (removeClient c (removeClient c m)) = trace m @ [ConnClose (connection c)])
   \<and> (clients m c = None \<longrightarrow> removeClient c (removeClient c m) = m)"
proof -
  have idem: "removeClient c (removeClient c m) = removeClient c m"
    by (simp add: removeClient_absent clients_removeClient)
  have gone: "clients (removeClient c m) c = None"
    by (simp add: clients_removeClient)
  have once: "clients m c \<noteq> None \<Longrightarrow> trace (removeClient c m) = trace m @ [ConnClose (connection c)]"
    by (auto simp: removeClient_def emit_def)
  show ?thesis
    using idem gone once by (simp add: clients_removeClient removeClient_absent)
qed

theorem removeClient_twice_closes_once_witness:
  "clients (addClient ex_client NewManager) ex_client \<noteq> None
   \<and> trace (removeClient ex_client (removeClient ex_client (addClient ex_client NewManager)))
       = [ConnClose 7]
   \<and> clients (removeClient ex_client (removeClient ex_client (addClient ex_client NewManager)))
        ex_client = None"
proof -
  have h: "clients (addClient ex_client NewManager) ex_client \<noteq> None"
    by (simp add: addClient_def)
  have t: "trace (addClient ex_client NewManager) = []"
    by (simp add: addClient_def NewManager_def setupEventHandlers_def)
  have c: "connection ex_client = 7"
    by (simp add: ex_client_def)
  show ?thesis
    using h t c removeClient_twice_closes_once [of ex_client "addClient ex_client NewManager"]
    by simp
qed

text \<open>
  C2: tokens are single-use. Verifying a key that is in the store (issued, and neither
  verified nor swept since) succeeds and deletes it, so that verifying it again fails;
  verifying a key that is not in the store fails and leaves the store as it is. In terms
  of the history of a store that started empty: a key issued and then neither verified
  nor swept verifies, and a key never issued does not.
\<close>

theorem otp_single_use:
  "(rm k \<noteq> None \<longrightarrow>
      fst (VerifyOTP k rm) \<and> snd (VerifyOTP k rm) = rm(k := None)
      \<and> \<not> fst (VerifyOTP k (snd (VerifyOTP k rm))))
   \<and> (rm k = None \<longrightarrow> \<not> fst (VerifyOTP k rm) \<and> snd (VerifyOTP k rm) = rm)
   \<and> ((\<forall>x \<in> set later. x \<noteq> Verify k \<and> (\<forall>t'. x \<noteq> Sweep t')) \<longrightarrow>
        fst (VerifyOTP k (store_run p (earlier @ Issue k t # later) (NewRetentionMap q))))
   \<and> ((\<forall>t'. Issue k t' \<notin> set ops) \<longrightarrow>
        \<not> fst (VerifyOTP k (store_run p ops (NewRetentionMap q))))"
proof -
  have a: "rm k \<noteq> None \<longrightarrow>
      fst (VerifyOTP k rm) \<and> snd (VerifyOTP k rm) = rm(k := None)
      \<and> \<not> fst (VerifyOTP k (snd (VerifyOTP k rm)))"
    by (auto simp: VerifyOTP_def)
  have b: "rm k = None \<longrightarrow> \<not> fst (VerifyOTP k rm) \<and> snd (VerifyOTP k rm) = rm"
    by (simp add: VerifyOTP_def)
  have c: "(\<forall>x \<in> set later. x \<noteq> Verify k \<and> (\<forall>t'. x \<noteq> Sweep t')) \<longrightarrow>
        fst (VerifyOTP k (store_run p (earlier @ Issue k t # later) (NewRetentionMap q)))"
  proof
    assume h: "\<forall>x \<in> set later. x \<noteq> Verify k \<and> (\<forall>t'. x \<noteq> Sweep t')"
    let ?rm = "store_step p (Issue k t) (store_run p earlier (NewRetentionMap q))"
    have "?rm k \<noteq> None" by (simp add: NewOTP_def Let_def)
    with h store_run_keeps [of later k ?rm p]
    have "store_run p (earlier @ Issue k t # later) (NewRetentionMap q) k \<noteq> None"
      by (simp add: store_run_append)
    then show "fst (VerifyOTP k (store_run p (earlier @ Issue k t # later) (NewRetentionMap q)))"
      by (auto simp: VerifyOTP_def)
  qed
  have d: "(\<forall>t'. Issue k t' \<notin> set ops) \<longrightarrow>
        \<not> fst (VerifyOTP k (store_run p ops (NewRetentionMap q)))"
  proof
    assume h: "\<forall>t'. Issue k t' \<notin> set ops"
    have "NewRetentionMap q k = None" by (simp add: NewRetentionMap_def)
    with h store_run_never_issued [of k ops "NewRetentionMap q" p]
    show "\<not> fst (VerifyOTP k (store_run p ops (NewRetentionMap q)))"
      by (simp add: VerifyOTP_def)
  qed
  from a b c d show ?thesis by blast
qed

theorem otp_single_use_witness:
  "(store_run 20 [Issue ''k1'' 0] (NewRetentionMap 20)) ''k1'' \<noteq> None
   \<and> fst (VerifyOTP ''k1'' (store_run 20 [Issue ''k1'' 0] (NewRetentionMap 20)))
   \<and> \<not> fst (VerifyOTP ''k1'' (snd (VerifyOTP ''k1'' (store_run 20 [Issue ''k1'' 0] (NewRetentionMap 20)))))
   \<and> NewRetentionMap 20 ''k2'' = None
   \<and> \<not> fst (VerifyOTP ''k2'' (NewRetentionMap 20))
   \<and> Issue ''k2'' 5 \<noteq> Verify ''k1'' \<and> (\<forall>t'. Issue ''k2'' 5 \<noteq> Sweep t')
   \<and> fst (VerifyOTP ''k1'' (store_run 20 ([Verify ''k1''] @ Issue ''k1'' 0 # [Issue ''k2'' 5]) (NewRetentionMap 20)))
   \<and> (\<forall>t'. Issue ''k2'' t' \<notin> set [Issue ''k1'' 0, Sweep 30])
   \<and> \<not> fst (VerifyOTP ''k2'' (store_run 20 [Issue ''k1'' 0, Sweep 30] (NewRetentionMap 20)))"
proof -
  let ?rm = "store_run 20 [Issue ''k1'' 0] (NewRetentionMap 20)"
  have h1: "?rm ''k1'' \<noteq> None"
    by (simp add: NewOTP_def Let_def)
  have h2: "NewRetentionMap 20 ''k2'' = None"
    by (simp add: NewRetentionMap_def)
  have h3: "\<forall>x \<in> set [Issue ''k2'' 5]. x \<noteq> Verify ''k1'' \<and> (\<forall>t'. x \<noteq> Sweep t')"
    by simp
  have h4: "\<forall>t'. Issue ''k2'' t' \<notin> set [Issue ''k1'' 0, Sweep 30]"
    by simp
  note A = otp_single_use [of ?rm "''k1''" "[Issue ''k2'' 5]" 20 "[Verify ''k1'']" 0 20 "[]"]
  note B = otp_single_use [of "NewRetentionMap 20" "''k2''" "[]" 20 "[]" 0 20
                              "[Issue ''k1'' 0, Sweep 30]"]
  have c1: "fst (VerifyOTP ''k1'' ?rm) \<and> \<not> fst (VerifyOTP ''k1'' (snd (VerifyOTP ''k1'' ?rm)))"
    using A h1 by blast
  have c2: "fst (VerifyOTP ''k1'' (store_run 20 ([Verify ''k1''] @ Issue ''k1'' 0 # [Issue ''k2'' 5])
              (NewRetentionMap 20)))"
    using A h3 by blast
  have c3: "\<not> fst (VerifyOTP ''k2'' (NewRetentionMap 20))"
    using B h2 by blast
  have c4: "\<not> fst (VerifyOTP ''k2'' (store_run 20 [Issue ''k1'' 0, Sweep 30] (NewRetentionMap 20)))"
    using B h4 by blast
  from h1 h2 h4 c1 c2 c3 c4 show ?thesis by simp
qed

text \<open>
  C3: when the \<open>otp\<close> parameter is empty or absent, or its verification fails,
  \<open>serveWS\<close> writes status 401 and returns: it makes no call but printing the token and
  writing the header (no upgrade, no goroutine), starts no client, and leaves the registry,
  the handlers and the token store as they were. More generally, whenever \<open>serveWS\<close>
  starts no client (a failed upgrade included) the registry is unchanged.
\<close>

theorem serveWS_unauthorized:
  "(Get (query r) ''otp'' = [] \<or> \<not> fst (VerifyOTP (Get (query r) ''otp'') (otps m)) \<longrightarrow>
      fst (serveWS up a r m) = None
      \<and> trace (snd (serveWS up a r m))
          = trace m @ [PrintString (Get (query r) ''otp''), WriteHeader 401]
      \<and> clients (snd (serveWS up a r m)) = clients m
      \<and> handlers (snd (serveWS up a r m)) = handlers m
      \<and> otps (snd (serveWS up a r m)) = otps m)
   \<and> (fst (serveWS up a r m) = None \<longrightarrow> clients (snd (serveWS up a r m)) = clients m)"
proof -
  have a: "Get (query r) ''otp'' = [] \<or> \<not> fst (VerifyOTP (Get (query r) ''otp'') (otps m)) \<longrightarrow>
      fst (serveWS up a r m) = None
      \<and> trace (snd (serveWS up a r m))
          = trace m @ [PrintString (Get (query r) ''otp''), WriteHeader 401]
      \<and> clients (snd (serveWS up a r m)) = clients m
      \<and> handlers (snd (serveWS up a r m)) = handlers m
      \<and> otps (snd (serveWS up a r m)) = otps m"
    by (auto simp: serveWS_def Let_def emit_def VerifyOTP_def StatusUnauthorized_def
             split: prod.splits option.splits)
  have b: "fst (serveWS up a r m) = None \<longrightarrow> clients (snd (serveWS up a r m)) = clients m"
    using serveWS_cases [of up a r m "fst (serveWS up a r m)" "snd (serveWS up a r m)"]
    by auto
  from a b show ?thesis by blast
qed

theorem serveWS_unauthorized_witness:
  "\<not> fst (VerifyOTP (Get (query (ex_request ''stale-key'')) ''otp'') (otps (mgr ex_admitted)))
   \<and> fst (serveWS (Inr 8) 4 (ex_request ''stale-key'') (mgr ex_admitted)) = None
   \<and> trace (snd (serveWS (Inr 8) 4 (ex_request ''stale-key'') (mgr ex_admitted)))
       = trace (mgr ex_admitted) @ [PrintString ''stale-key'', WriteHeader 401]
   \<and> clients (snd (serveWS (Inr 8) 4 (ex_request ''stale-key'') (mgr ex_admitted)))
       = [ex_client \<mapsto> True]
   \<and> Get (query (ex_request [])) ''otp'' = []
   \<and> fst (serveWS (Inr 8) 4 (ex_request []) NewManager) = None
   \<and> trace (snd (serveWS (Inr 8) 4 (ex_request []) NewManager)) = [PrintString [], WriteHeader 401]
   \<and> fst (serveWS (Inl (Err ''bad handshake'')) 4 (ex_request ''k1'') (mgr ex_login)) = None
   \<and> clients (snd (serveWS (Inl (Err ''bad handshake'')) 4 (ex_request ''k1'') (mgr ex_login)))
       = Map.empty"
proof -
  have g: "Get (query (ex_request ''stale-key'')) ''otp'' = ''stale-key''"
          "Get (query (ex_request [])) ''otp'' = []"
    by (simp_all add: Get_def ex_request_def)
  have o: "otps (mgr ex_admitted) = Map.empty" "clients (mgr ex_admitted) = [ex_client \<mapsto> True]"
    by (simp_all add: ex_admitted_mgr)
  have t: "trace NewManager = []" "clients (mgr ex_login) = Map.empty"
    by (simp_all add: ex_login_mgr NewManager_def setupEventHandlers_def)
  have h1: "\<not> fst (VerifyOTP (Get (query (ex_request ''stale-key'')) ''otp'')
                 (otps (mgr ex_admitted)))"
    by (simp add: g o VerifyOTP_def)
  have h3: "fst (serveWS (Inl (Err ''bad handshake'')) 4 (ex_request ''k1'') (mgr ex_login)) = None"
    by (simp add: ex_login_mgr serveWS_def ex_request_def Get_def VerifyOTP_def Let_def emit_def)
  show ?thesis
    using h1 h3 g o t
      serveWS_unauthorized [of "ex_request ''stale-key''" "mgr ex_admitted" "Inr 8" 4]
      serveWS_unauthorized [of "ex_request []" NewManager "Inr 8" 4]
      serveWS_unauthorized [of "ex_request ''k1''" "mgr ex_login" "Inl (Err ''bad handshake'')" 4]
    by simp
qed

text \<open>
  C4: with no handler registered for the type of the event, \<open>reouteEvent\<close> returns
  \<open>ErrEventNotSupported\<close> and does nothing else; with a handler registered, it calls
  the handler on the event and the client and returns the handler's result unchanged,
  error or nil. In every state the server reaches the handler table is the one
  \<open>NewManager\<close> built, and there the result is \<open>ErrEventNotSupported\<close> exactly when no
  handler is registered for the type.
\<close>

theorem reouteEvent_dispatch:
  "(handlers m (Type e) = None \<longrightarrow> reouteEvent e c m = (Some ErrEventNotSupported, m))
   \<and> (\<forall>h. handlers m (Type e) = Some h \<longrightarrow>
         reouteEvent e c m = (snd (h e c), m\<lparr>trace := trace m @ fst (h e c)\<rparr>))
   \<and> (reachable s \<longrightarrow>
         (fst (reouteEvent e c (mgr s)) = Some ErrEventNotSupported)
           = (handlers (mgr s) (Type e) = None))"
proof -
  have a: "handlers m (Type e) = None \<longrightarrow> reouteEvent e c m = (Some ErrEventNotSupported, m)"
    by (simp add: reouteEvent_def)
  have b: "\<forall>h. handlers m (Type e) = Some h \<longrightarrow>
         reouteEvent e c m = (snd (h e c), m\<lparr>trace := trace m @ fst (h e c)\<rparr>)"
    by (auto simp: reouteEvent_def split: prod.splits option.splits)
  have c: "reachable s \<longrightarrow>
         (fst (reouteEvent e c (mgr s)) = Some ErrEventNotSupported)
           = (handlers (mgr s) (Type e) = None)"
  proof
    assume "reachable s"
    then have "handlers (mgr s) = handlers NewManager"
      using server_inv_reachable by (simp add: server_inv_def)
    then show "(fst (reouteEvent e c (mgr s)) = Some ErrEventNotSupported)
           = (handlers (mgr s) (Type e) = None)"
      by (simp add: reouteEvent_def NewManager_def setupEventHandlers_def)
  qed
  from a b c show ?thesis by blast
qed

theorem reouteEvent_dispatch_witness:
  "handlers NewManager (Type (ex_event\<lparr>Type := ''typing''\<rparr>)) = None
   \<and> reouteEvent (ex_event\<lparr>Type := ''typing''\<rparr>) ex_client NewManager
       = (Some ErrEventNotSupported, NewManager)
   \<and> handlers NewManager (Type ex_event) = Some (\<lambda>e c. ([PrintEvent e], None))
   \<and> reouteEvent ex_event ex_client NewManager
       = (None, NewManager\<lparr>trace := [PrintEvent ex_event]\<rparr>)
   \<and> reachable init
   \<and> fst (reouteEvent ex_event ex_client (mgr init)) \<noteq> Some ErrEventNotSupported"
proof -
  have h1: "handlers NewManager (Type (ex_event\<lparr>Type := ''typing''\<rparr>)) = None"
    by (simp add: NewManager_def setupEventHandlers_def EventSendMessage_def)
  have h2: "handlers NewManager (Type ex_event) = Some (\<lambda>e c. ([PrintEvent e], None))"
    by (simp add: NewManager_def setupEventHandlers_def EventSendMessage_def ex_event_def)
  have h3: "reachable init"
    by (simp add: reachable_def)
  have t: "trace NewManager = []" "mgr init = NewManager"
    by (simp_all add: NewManager_def setupEventHandlers_def init_def)
  show ?thesis
    using h1 h2 h3 t
      reouteEvent_dispatch [of NewManager "ex_event\<lparr>Type := ''typing''\<rparr>" ex_client init]
      reouteEvent_dispatch [of NewManager ex_event ex_client init]
    by simp
qed

text \<open>
  C5: in the read loop, a message that does not decode is logged and ends the loop, and
  \<open>readMessages\<close> then removes the client, closing its connection if it was
  registered; a message that decodes and whose dispatch returns an error has the error
  logged and the loop goes on to the next read, the registry untouched. The loop ends
  exactly when a read fails or a message does not decode, whatever dispatch returns.
\<close>

theorem readLoop_errors:
  "(um payload = Inl err \<longrightarrow>
      readLoop um c (ReadOK payload # rest) m
        = (Exited, emit (LogErr ''error marshaling message'' err) (emit (JsonUnmarshal payload) m))
      \<and> fst (readMessages um c None (ReadOK payload # rest) m0) = Exited
      \<and> clients (snd (readMessages um c None (ReadOK payload # rest) m0)) = (clients m0)(c := None)
      \<and> (clients m0 c \<noteq> None \<longrightarrow>
           last (trace (snd (readMessages um c None (ReadOK payload # rest) m0)))
             = ConnClose (connection c)))
   \<and> (um payload = Inr request \<and>
        reouteEvent request c (emit (JsonUnmarshal payload) m) = (Some e, m2) \<longrightarrow>
      readLoop um c (ReadOK payload # rest) m
        = readLoop um c rest (emit (LogErr ''Error handling Message'' e) m2)
      \<and> clients (emit (LogErr ''Error handling Message'' e) m2) = clients m)
   \<and> (um payload = Inr request \<longrightarrow>
        fst (readMessages um c None [ReadOK payload] m0) = Blocked
        \<and> clients (snd (readMessages um c None [ReadOK payload] m0)) = clients m0)
   \<and> ((fst (readLoop um c rs m) = Exited) = (\<exists>r \<in> set rs. fatal_read um r))"
proof -
  let ?m0 = "emit (SetPongHandler (connection c))
              (emit (SetReadDeadline (connection c)) (emit (SetReadLimit (connection c) 1024) m0))"
  have a: "um payload = Inl err \<Longrightarrow>
      readLoop um c (ReadOK payload # rest) m
        = (Exited, emit (LogErr ''error marshaling message'' err) (emit (JsonUnmarshal payload) m))"
    by simp
  have b: "um payload = Inl err \<Longrightarrow>
      readMessages um c None (ReadOK payload # rest) m0
        = (Exited, removeClient c (emit (LogErr ''error marshaling message'' err)
                                     (emit (JsonUnmarshal payload) ?m0)))"
    by (simp add: readMessages_def)
  have b1: "um payload = Inl err \<Longrightarrow>
      clients (snd (readMessages um c None (ReadOK payload # rest) m0)) = (clients m0)(c := None)"
    by (simp add: b clients_removeClient clients_emit)
  have b2: "um payload = Inl err \<Longrightarrow> clients m0 c \<noteq> None \<Longrightarrow>
      last (trace (snd (readMessages um c None (ReadOK payload # rest) m0)))
             = ConnClose (connection c)"
    by (auto simp: b removeClient_def emit_def)
  have d: "um payload = Inr request \<Longrightarrow>
        reouteEvent request c (emit (JsonUnmarshal payload) m) = (Some e, m2) \<Longrightarrow>
      readLoop um c (ReadOK payload # rest) m
        = readLoop um c rest (emit (LogErr ''Error handling Message'' e) m2)"
    by simp
  have e1: "um payload = Inr request \<Longrightarrow>
        reouteEvent request c (emit (JsonUnmarshal payload) m) = (Some e, m2) \<Longrightarrow>
        clients (emit (LogErr ''Error handling Message'' e) m2) = clients m"
    using reouteEvent_fields(1) [of request c "emit (JsonUnmarshal payload) m"]
    by (simp add: clients_emit)
  have f: "um payload = Inr request \<Longrightarrow>
        fst (readMessages um c None [ReadOK payload] m0) = Blocked
        \<and> clients (snd (readMessages um c None [ReadOK payload] m0)) = clients m0"
  proof -
    assume u: "um payload = Inr request"
    obtain st m1 where rl: "readLoop um c [ReadOK payload] ?m0 = (st, m1)"
      by (cases "readLoop um c [ReadOK payload] ?m0")
    have "\<not> (\<exists>r \<in> set [ReadOK payload]. fatal_read um r)"
      using u by simp
    then have "fst (readLoop um c [ReadOK payload] ?m0) \<noteq> Exited"
      by (simp only: readLoop_Exited_iff not_False_eq_True)
    with rl have st: "st = Blocked" by (cases st) simp_all
    have "clients m1 = clients m0"
      using readLoop_fields [of um c "[ReadOK payload]" ?m0] rl by (simp add: clients_emit)
    with rl st show ?thesis by (simp add: readMessages_def)
  qed
  from a b b1 b2 d e1 f readLoop_Exited_iff [of um c rs m] show ?thesis
    by simp
qed

theorem readLoop_errors_witness:
  "ex_unmarshal ''not json'' = Inl (Err ''invalid character'')
   \<and> fst (readMessages ex_unmarshal ex_client None
            [ReadOK ''not json'', ReadOK ''{\"type\":\"typing\"}''] (mgr ex_admitted)) = Exited
   \<and> clients (snd (readMessages ex_unmarshal ex_client None
            [ReadOK ''not json'', ReadOK ''{\"type\":\"typing\"}''] (mgr ex_admitted))) ex_client = None
   \<and> clients (mgr ex_admitted) ex_client \<noteq> None
   \<and> last (trace (snd (readMessages ex_unmarshal ex_client None
            [ReadOK ''not json'', ReadOK ''{\"type\":\"typing\"}''] (mgr ex_admitted)))) = ConnClose 7
   \<and> ex_unmarshal ''{\"type\":\"typing\"}'' = Inr \<lparr>Type = ''typing'', Payload = []\<rparr>
   \<and> reouteEvent \<lparr>Type = ''typing'', Payload = []\<rparr> ex_client
        (emit (JsonUnmarshal ''{\"type\":\"typing\"}'') (mgr ex_admitted))
       = (Some ErrEventNotSupported, emit (JsonUnmarshal ''{\"type\":\"typing\"}'') (mgr ex_admitted))
   \<and> readLoop ex_unmarshal ex_client [ReadOK ''{\"type\":\"typing\"}''] (mgr ex_admitted)
       = (Blocked, emit (LogErr ''Error handling Message'' ErrEventNotSupported)
                     (emit (JsonUnmarshal ''{\"type\":\"typing\"}'') (mgr ex_admitted)))
   \<and> fst (readMessages ex_unmarshal ex_client None [ReadOK ''{\"type\":\"typing\"}'']
            (mgr ex_admitted)) = Blocked
   \<and> clients (snd (readMessages ex_unmarshal ex_client None [ReadOK ''{\"type\":\"typing\"}'']
            (mgr ex_admitted))) ex_client \<noteq> None
   \<and> (\<exists>r \<in> set [ReadOK ''{\"type\":\"typing\"}'', ReadOK ''not json'']. fatal_read ex_unmarshal r)
   \<and> fst (readLoop ex_unmarshal ex_client [ReadOK ''{\"type\":\"typing\"}'', ReadOK ''not json'']
            (mgr ex_admitted)) = Exited"
proof -
  let ?ty = "''{\"type\":\"typing\"}''"
  let ?ev = "\<lparr>Type = ''typing'', Payload = []\<rparr>"
  let ?m = "mgr ex_admitted"
  have h1: "ex_unmarshal ''not json'' = Inl (Err ''invalid character'')"
    by (simp add: ex_unmarshal_def)
  have h2: "ex_unmarshal ?ty = Inr ?ev"
    by (simp add: ex_unmarshal_def)
  have h3: "reouteEvent ?ev ex_client (emit (JsonUnmarshal ?ty) ?m)
              = (Some ErrEventNotSupported, emit (JsonUnmarshal ?ty) ?m)"
    by (simp add: reouteEvent_def emit_def ex_admitted_mgr NewManager_def setupEventHandlers_def
                  EventSendMessage_def)
  have h4: "clients ?m ex_client \<noteq> None"
    by (simp add: ex_admitted_mgr)
  have h5: "\<exists>r \<in> set [ReadOK ?ty, ReadOK ''not json'']. fatal_read ex_unmarshal r"
    by (simp add: h1)
  have cn: "connection ex_client = 7" by (simp add: ex_client_def)
  note A = readLoop_errors [of ex_unmarshal "''not json''" "Err ''invalid character''" ex_client
             "[ReadOK ?ty]" ?m ?m ?ev ErrEventNotSupported "emit (JsonUnmarshal ?ty) ?m"
             "[ReadOK ?ty, ReadOK ''not json'']"]
  note B = readLoop_errors [of ex_unmarshal ?ty "Err ''invalid character''" ex_client
             "[]" ?m ?m ?ev ErrEventNotSupported "emit (JsonUnmarshal ?ty) ?m"
             "[ReadOK ?ty, ReadOK ''not json'']"]
  show ?thesis
    using A B h1 h2 h3 h4 h5 cn by simp
qed

text \<open>
  C6: in every state the server reaches, a client is in the registry exactly when it is
  active, that is, admitted with neither of its goroutines returned. Whenever
  \<open>readMessages\<close> or \<open>WriteMessages\<close> returns, the last thing it did was
  \<open>removeClient\<close> on its own client, which is then not in the registry.
\<close>

theorem registry_tracks_lifecycle:
  "(reachable s \<longrightarrow> registered s c = active s c)
   \<and> (readMessages um c deadline reads m = (Exited, m1) \<longrightarrow>
        clients m1 c = None \<and> (\<exists>m'. m1 = removeClient c m'))
   \<and> (WriteMessages mar c sel m = (Exited, m2) \<longrightarrow>
        clients m2 c = None \<and> (\<exists>m'. m2 = removeClient c m'))"
proof -
  have a: "reachable s \<longrightarrow> registered s c = active s c"
    using server_inv_reachable [of s] by (simp add: server_inv_def)
  have b: "readMessages um c deadline reads m = (Exited, m1) \<longrightarrow>
        clients m1 c = None \<and> (\<exists>m'. m1 = removeClient c m')"
  proof
    assume h: "readMessages um c deadline reads m = (Exited, m1)"
    have "\<exists>m'. m1 = removeClient c m'"
      using h by (auto simp: readMessages_def Let_def split: option.splits prod.splits outcome.splits)
    with readMessages_Exited(1) [OF h]
    show "clients m1 c = None \<and> (\<exists>m'. m1 = removeClient c m')" by simp
  qed
  have d: "WriteMessages mar c sel m = (Exited, m2) \<longrightarrow>
        clients m2 c = None \<and> (\<exists>m'. m2 = removeClient c m')"
  proof
    assume h: "WriteMessages mar c sel m = (Exited, m2)"
    have "\<exists>m'. m2 = removeClient c m'"
      using h by (auto simp: WriteMessages_def split: prod.splits outcome.splits)
    with WriteMessages_Exited(1) [OF h]
    show "clients m2 c = None \<and> (\<exists>m'. m2 = removeClient c m')" by simp
  qed
  from a b d show ?thesis by blast
qed

theorem registry_tracks_lifecycle_witness:
  "reachable ex_admitted \<and> registered ex_admitted ex_client \<and> active ex_admitted ex_client
   \<and> reachable ex_closed \<and> \<not> registered ex_closed ex_client \<and> \<not> active ex_closed ex_client
   \<and> fst (readMessages ex_unmarshal ex_client None [ReadError (Err ''EOF'') False] (mgr ex_admitted))
       = Exited
   \<and> clients (snd (readMessages ex_unmarshal ex_client None [ReadError (Err ''EOF'') False]
                     (mgr ex_admitted))) ex_client = None
   \<and> fst (WriteMessages ex_marshal ex_client [TickerFire (Some (Err ''broken pipe''))]
            (mgr ex_admitted)) = Exited
   \<and> clients (snd (WriteMessages ex_marshal ex_client [TickerFire (Some (Err ''broken pipe''))]
                     (mgr ex_admitted))) ex_client = None"
proof -
  let ?rd = "readMessages ex_unmarshal ex_client None [ReadError (Err ''EOF'') False] (mgr ex_admitted)"
  let ?wr = "WriteMessages ex_marshal ex_client [TickerFire (Some (Err ''broken pipe''))] (mgr ex_admitted)"
  have r1: "fst ?rd = Exited" by (simp add: readMessages_def)
  have w1: "fst ?wr = Exited" by (simp add: WriteMessages_def)
  have r2: "?rd = (Exited, snd ?rd)" using r1 by (metis prod.collapse)
  have w2: "?wr = (Exited, snd ?wr)" using w1 by (metis prod.collapse)
  have act: "active ex_admitted ex_client"
    by (simp add: active_def ex_admitted_def ex_serve)
  have nact: "\<not> active ex_closed ex_client"
    by (simp add: active_def ex_closed_def)
  note A = registry_tracks_lifecycle [of ex_admitted ex_client ex_unmarshal None
             "[ReadError (Err ''EOF'') False]" "mgr ex_admitted" "snd ?rd" ex_marshal
             "[TickerFire (Some (Err ''broken pipe''))]" "snd ?wr"]
  note B = registry_tracks_lifecycle [of ex_closed ex_client ex_unmarshal None
             "[ReadError (Err ''EOF'') False]" "mgr ex_admitted" "snd ?rd" ex_marshal
             "[TickerFire (Some (Err ''broken pipe''))]" "snd ?wr"]
  have c1: "registered ex_admitted ex_client" using A ex_reachable(2) act by blast
  have c2: "\<not> registered ex_closed ex_client" using B ex_reachable(3) nact by blast
  have c3: "clients (snd ?rd) ex_client = None" using A r2 by blast
  have c4: "clients (snd ?wr) ex_client = None" using A w2 by blast
  from ex_reachable act nact r1 w1 c1 c2 c3 c4 show ?thesis by blast
qed

text \<open>
  C7: the ping interval is nine tenths of the pong wait and strictly below it: with
  a pong wait of 10 seconds, \<open>(pongWait * 9) / 10\<close> is 9 seconds, the multiplication
  does not overflow and the division leaves no remainder.
\<close>

theorem pingInterval_nine_tenths:
  "pingInterval = 9 * Second
   \<and> sint pingInterval < sint pongWait
   \<and> 10 * sint pingInterval = 9 * sint pongWait
   \<and> sint (pongWait * 9) = sint pongWait * 9
   \<and> sint pongWait = 10 * sint Second"
  by (simp add: pingInterval_def pongWait_def Second_def quo_def signed_divide_int_def)

text \<open>
  C8: in the write loop, a failed write of a marshalled event from the egress channel
  is logged and the loop goes on to its next \<open>select\<close>, the registry untouched; a
  failed write of a ping on a tick is logged and ends the loop, and \<open>WriteMessages\<close>
  then stops the ticker and removes the client, closing its connection if it was
  registered. The loop never ends on a failed data write.
\<close>

theorem writeLoop_errors:
  "(mar message = Inr data \<longrightarrow>
      writeLoop mar c (EgressRecv message (Some err) # rest) m
        = writeLoop mar c rest
            (emit (Log ''sent message'')
               (emit (LogErr [] err)
                  (emit (WriteMessage (connection c) 1 data) (emit (JsonMarshal message) m))))
      \<and> fst (WriteMessages mar c [EgressRecv message (Some err)] m0) = Blocked
      \<and> clients (snd (WriteMessages mar c [EgressRecv message (Some err)] m0)) = clients m0)
   \<and> writeLoop mar c (TickerFire (Some err) # rest) m
        = (Exited, emit (LogErr ''writemsg: '' err)
                     (emit (WriteMessage (connection c) 9 []) (emit (Log ''ping'') m)))
   \<and> fst (WriteMessages mar c (TickerFire (Some err) # rest) m0) = Exited
   \<and> clients (snd (WriteMessages mar c (TickerFire (Some err) # rest) m0)) = (clients m0)(c := None)
   \<and> (clients m0 c \<noteq> None \<longrightarrow>
        last (trace (snd (WriteMessages mar c (TickerFire (Some err) # rest) m0)))
          = ConnClose (connection c))
   \<and> ((fst (writeLoop mar c sel m) = Exited) = (\<exists>x \<in> set sel. fatal_select mar x))"
proof -
  let ?m0 = "emit (NewTicker pingInterval) m0"
  have a: "mar message = Inr data \<Longrightarrow>
      writeLoop mar c (EgressRecv message (Some err) # rest) m
        = writeLoop mar c rest
            (emit (Log ''sent message'')
               (emit (LogErr [] err)
                  (emit (WriteMessage (connection c) 1 data) (emit (JsonMarshal message) m))))"
    by (simp add: TextMessage_def)
  have b: "mar message = Inr data \<Longrightarrow>
      fst (WriteMessages mar c [EgressRecv message (Some err)] m0) = Blocked
      \<and> clients (snd (WriteMessages mar c [EgressRecv message (Some err)] m0)) = clients m0"
    by (simp add: WriteMessages_def clients_emit)
  have t: "writeLoop mar c (TickerFire (Some err) # rest) m
        = (Exited, emit (LogErr ''writemsg: '' err)
                     (emit (WriteMessage (connection c) 9 []) (emit (Log ''ping'') m)))"
    by (simp add: PingMessage_def)
  have w: "WriteMessages mar c (TickerFire (Some err) # rest) m0
        = (Exited, removeClient c (emit TickerStop (emit (LogErr ''writemsg: '' err)
                     (emit (WriteMessage (connection c) 9 []) (emit (Log ''ping'') ?m0)))))"
    by (simp add: WriteMessages_def PingMessage_def)
  have w1: "clients (snd (WriteMessages mar c (TickerFire (Some err) # rest) m0))
              = (clients m0)(c := None)"
    by (simp add: w clients_removeClient clients_emit)
  have w2: "clients m0 c \<noteq> None \<Longrightarrow>
        last (trace (snd (WriteMessages mar c (TickerFire (Some err) # rest) m0)))
          = ConnClose (connection c)"
    by (auto simp: w removeClient_def emit_def)
  from a b t w w1 w2 writeLoop_Exited_iff [of mar c sel m] show ?thesis
    by simp
qed

theorem writeLoop_errors_witness:
  "ex_marshal ex_event
     = Inr ''{\"type\":\"send_message\",\"payload\":{\"message\":\"hi\",\"from\":\"a\"}}''
   \<and> fst (writeLoop ex_marshal ex_client
            [EgressRecv ex_event (Some (Err ''broken pipe'')), EgressRecv ex_event None]
            (mgr ex_admitted)) = Blocked
   \<and> fst (WriteMessages ex_marshal ex_client [EgressRecv ex_event (Some (Err ''broken pipe''))]
            (mgr ex_admitted)) = Blocked
   \<and> clients (snd (WriteMessages ex_marshal ex_client
                     [EgressRecv ex_event (Some (Err ''broken pipe''))] (mgr ex_admitted)))
        ex_client \<noteq> None
   \<and> fst (WriteMessages ex_marshal ex_client
            [TickerFire (Some (Err ''broken pipe'')), EgressRecv ex_event None] (mgr ex_admitted))
       = Exited
   \<and> clients (mgr ex_admitted) ex_client \<noteq> None
   \<and> clients (snd (WriteMessages ex_marshal ex_client
            [TickerFire (Some (Err ''broken pipe'')), EgressRecv ex_event None] (mgr ex_admitted)))
        ex_client = None
   \<and> last (trace (snd (WriteMessages ex_marshal ex_client
            [TickerFire (Some (Err ''broken pipe'')), EgressRecv ex_event None] (mgr ex_admitted))))
       = ConnClose 7
   \<and> \<not> (\<exists>x \<in> set [EgressRecv ex_event (Some (Err ''broken pipe'')), EgressRecv ex_event None].
           fatal_select ex_marshal x)"
proof -
  let ?data = "''{\"type\":\"send_message\",\"payload\":{\"message\":\"hi\",\"from\":\"a\"}}''"
  let ?m = "mgr ex_admitted"
  let ?sel = "[EgressRecv ex_event (Some (Err ''broken pipe'')), EgressRecv ex_event None]"
  have h1: "ex_marshal ex_event = Inr ?data"
    by (simp add: ex_marshal_def ex_event_def)
  have h2: "clients ?m ex_client \<noteq> None"
    by (simp add: ex_admitted_mgr)
  have h3: "\<not> (\<exists>x \<in> set ?sel. fatal_select ex_marshal x)"
    by (simp add: h1)
  have cn: "connection ex_client = 7" by (simp add: ex_client_def)
  note A = writeLoop_errors [of ex_marshal ex_event ?data ex_client "Err ''broken pipe''"
             "[EgressRecv ex_event None]" ?m ?m ?sel]
  have c1: "fst (writeLoop ex_marshal ex_client ?sel ?m) = Blocked"
    using A h3 by (cases "fst (writeLoop ex_marshal ex_client ?sel ?m)") simp_all
  show ?thesis
    using A h1 h2 h3 cn c1 by simp
qed

text \<open>
  C9 as stated fails: dispatching a \<open>send_message\<close> event never decodes its payload.
  The handler's only call is the print of the event as it came, and it returns nil even
  for an event with no payload at all, which no decoding into \<open>SendMessageEvent\<close>
  could accept.
\<close>

theorem handler_second_decode_counterexample:
  "reouteEvent ex_event ex_client NewManager = (None, NewManager\<lparr>trace := [PrintEvent ex_event]\<rparr>)
   \<and> JsonUnmarshal (Payload ex_event)
        \<notin> set (trace (snd (reouteEvent ex_event ex_client NewManager)))
   \<and> reouteEvent (ex_event\<lparr>Payload := []\<rparr>) ex_client NewManager
        = (None, NewManager\<lparr>trace := [PrintEvent (ex_event\<lparr>Payload := []\<rparr>)]\<rparr>)"
  by (simp add: reouteEvent_def NewManager_def setupEventHandlers_def EventSendMessage_def
                ex_event_def)

text \<open>
  C9, as amended: a message is decoded once, at the transport boundary, into an Event
  whose payload stays raw; for a \<open>send_message\<close> event the registered handler is called
  with that event, prints it and returns nil. Between the decoding of the message and
  the next read, the only calls are that decoding and the print: the payload is not
  decoded into a \<open>SendMessageEvent\<close>.
\<close>

theorem two_stage_decode_amended:
  "um payload = Inr request \<and> Type request = EventSendMessage
     \<and> handlers m = handlers NewManager \<Longrightarrow>
   readLoop um c (ReadOK payload # rest) m
     = readLoop um c rest (m\<lparr>trace := trace m @ [JsonUnmarshal payload, PrintEvent request]\<rparr>)
   \<and> reouteEvent request c (emit (JsonUnmarshal payload) m)
     = (None, m\<lparr>trace := trace m @ [JsonUnmarshal payload, PrintEvent request]\<rparr>)"
  by (simp add: reouteEvent_def emit_def NewManager_def setupEventHandlers_def)

theorem two_stage_decode_amended_witness:
  "ex_unmarshal ''{\"type\":\"send_message\",\"payload\":{\"message\":\"hi\",\"from\":\"a\"}}''
     = Inr ex_event
   \<and> Type ex_event = EventSendMessage
   \<and> readLoop ex_unmarshal ex_client
       [ReadOK ''{\"type\":\"send_message\",\"payload\":{\"message\":\"hi\",\"from\":\"a\"}}'']
       NewManager
     = (Blocked, NewManager\<lparr>trace :=
          [JsonUnmarshal ''{\"type\":\"send_message\",\"payload\":{\"message\":\"hi\",\"from\":\"a\"}}'',
           PrintEvent \<lparr>Type = ''send_message'',
                       Payload = ''{\"message\":\"hi\",\"from\":\"a\"}''\<rparr>]\<rparr>)"
proof -
  let ?p = "''{\"type\":\"send_message\",\"payload\":{\"message\":\"hi\",\"from\":\"a\"}}''"
  have h1: "ex_unmarshal ?p = Inr ex_event" by (simp add: ex_unmarshal_def)
  have h2: "Type ex_event = EventSendMessage" by (simp add: ex_event_def EventSendMessage_def)
  have t: "trace NewManager = []" by (simp add: NewManager_def setupEventHandlers_def)
  have e: "ex_event = \<lparr>Type = ''send_message'', Payload = ''{\"message\":\"hi\",\"from\":\"a\"}''\<rparr>"
    by (simp add: ex_event_def)
  from two_stage_decode_amended [of ex_unmarshal ?p ex_event NewManager ex_client "[]"] h1 h2
  have "readLoop ex_unmarshal ex_client [ReadOK ?p] NewManager
     = readLoop ex_unmarshal ex_client []
         (NewManager\<lparr>trace := trace NewManager @ [JsonUnmarshal ?p, PrintEvent ex_event]\<rparr>)"
    by blast
  with h1 h2 t e show ?thesis by simp
qed

text \<open>
  C10: in the token-authenticated snapshot the origin check accepts every request,
  whatever its Origin header, and it is the check the upgrader is configured with.
\<close>

theorem checkOrigin_always_true:
  "checkOrigin r = True \<and> CheckOrigin websocketUpgrader r = True"
  by (simp add: checkOrigin_def websocketUpgrader_def Let_def)

end
